theory Spec2Isabelle
  imports Main
begin

unbundle bit_operations_syntax

section \<open>Values, errors and engine records\<close>

text \<open>
  The module \<open>qiling/extensions/r2/r2.py\<close> builds typed views of a binary from the JSON
  replies of the radare2 core.  A decoded JSON reply is a Python value: \<open>None\<close>, a bool, an
  int, a str, a list, or a dict with string keys (an association list in insertion order;
  a dict returned by \<open>json.loads\<close> has distinct keys).  JSON floats do not occur in the
  records the module reads and are left out.

  Every exception the modelled code can raise is a constructor of \<open>error\<close>; a fallible
  operation returns \<open>error + 'a\<close> with \<open>Inl\<close> for the exception.
\<close>

datatype error =
  AttributeError | KeyError | TypeError | IndexError | JSONDecodeError | UnicodeDecodeError

datatype json =
    JNull
  | JBool bool
  | JInt int
  | JStr string
  | JList "json list"
  | JObj "(string \<times> json) list"

text \<open>An instance is its attribute dictionary (\<open>__dict__\<close>): attribute name to value.\<close>

type_synonym attrs = "string \<rightharpoonup> json"

subsection \<open>\<open>R2Data.__init__\<close>\<close>

text \<open>
  \<^verbatim>\<open>
  def __init__(self, **kwargs):
      names = set([f.name for f in fields(self)])
      for k, v in kwargs.items():
          if k in names:
              setattr(self, k, v)
  \<close>
  \<open>R2Data_init\<close> is the body: its first argument is the list of the dataclass field names
  of the instance's class, its second the keyword arguments already bound to \<open>kwargs\<close>;
  the instance starts with no attribute.

  A record is constructed by the call \<open>Cls(**dic)\<close>.  The first parameter of every
  \<open>__init__\<close> of the module is \<open>self\<close>, so the call raises \<open>TypeError\<close> (multiple values
  for the argument \<open>self\<close>) when \<open>dic\<close> has the key \<open>self\<close>; any other string key is
  bound into \<open>kwargs\<close>.
\<close>

definition bind_kwargs :: "(string \<times> json) list \<Rightarrow> error + (string \<times> json) list" where
  "bind_kwargs dic = (if ''self'' \<in> set (map fst dic) then Inl TypeError else Inr dic)"

definition R2Data_init :: "string list \<Rightarrow> (string \<times> json) list \<Rightarrow> attrs" where
  "R2Data_init fnames kwargs =
     (let names = set fnames
      in fold (\<lambda>(k, v) self. if k \<in> names then self(k \<mapsto> v) else self) kwargs Map.empty)"

text \<open>The six record classes and their dataclass fields, in declaration order.\<close>

datatype kind = Function | Section | String | Symbol | Flag | Xref

fun field_names :: "kind \<Rightarrow> string list" where
  "field_names Function = [''name'', ''offset'', ''size'', ''signature'']"
| "field_names Section = [''name'', ''size'', ''vsize'', ''paddr'', ''vaddr'', ''perm'']"
| "field_names String = [''string'', ''vaddr'', ''paddr'', ''size'', ''length'', ''section'']"
| "field_names Symbol = [''name'', ''realname'', ''bind'', ''size'', ''type'', ''vaddr'', ''paddr'',
     ''is_imported'']"
| "field_names Flag = [''offset'', ''name'', ''size'']"
| "field_names Xref = [''name'', ''fromaddr'', ''refname'', ''addr'', ''type'']"

subsection \<open>\<open>Section.perm2uc\<close>\<close>

text \<open>
  The protection constants \<open>UC_PROT_NONE\<close>, \<open>UC_PROT_READ\<close>, \<open>UC_PROT_WRITE\<close> and
  \<open>UC_PROT_EXEC\<close> are imported from the unicorn package, which is not part of this
  repository: they are a parameter of the model.  \<open>unicorn_prot\<close> holds the values
  unicorn gives them; \<open>prot_bits\<close> says what the conversion relies on: no bit in
  \<open>UC_PROT_NONE\<close>, and no bit shared between two of the three permissions.
\<close>

record uc_prot =
  UC_PROT_NONE :: int
  UC_PROT_READ :: int
  UC_PROT_WRITE :: int
  UC_PROT_EXEC :: int

definition unicorn_prot :: uc_prot where
  "unicorn_prot = \<lparr>UC_PROT_NONE = 0, UC_PROT_READ = 1, UC_PROT_WRITE = 2, UC_PROT_EXEC = 4\<rparr>"

definition prot_bits :: "uc_prot \<Rightarrow> bool" where
  "prot_bits uc \<longleftrightarrow>
     UC_PROT_NONE uc = 0 \<and>
     UC_PROT_READ uc AND UC_PROT_WRITE uc = 0 \<and>
     UC_PROT_READ uc AND UC_PROT_EXEC uc = 0 \<and>
     UC_PROT_WRITE uc AND UC_PROT_EXEC uc = 0"

text \<open>
  \<^verbatim>\<open>
  def perm2uc(permstr: str) -> int:
      perm = UC_PROT_NONE
      dic = {"r": UC_PROT_READ, "w": UC_PROT_WRITE, "x": UC_PROT_EXEC}
      for ch in permstr:
          perm += dic.get(ch, 0)
      return perm
  \<close>
  Iterating a Python str yields its one-character strings; the keys of \<open>dic\<close> are such
  strings.
\<close>

definition dic :: "uc_prot \<Rightarrow> (string \<times> int) list" where
  "dic uc = [(''r'', UC_PROT_READ uc), (''w'', UC_PROT_WRITE uc), (''x'', UC_PROT_EXEC uc)]"

definition dict_get :: "('k \<times> 'v) list \<Rightarrow> 'k \<Rightarrow> 'v \<Rightarrow> 'v" where
  "dict_get d k dflt = (case map_of d k of Some v \<Rightarrow> v | None \<Rightarrow> dflt)"

definition str_iter :: "string \<Rightarrow> string list" where
  "str_iter s = map (\<lambda>c. [c]) s"

definition perm2uc :: "uc_prot \<Rightarrow> string \<Rightarrow> int" where
  "perm2uc uc permstr =
     fold (\<lambda>ch perm. perm + dict_get (dic uc) ch 0) (str_iter permstr) (UC_PROT_NONE uc)"

text \<open>
  \<open>Section.__init__\<close> passes whatever value the attribute \<open>perm\<close> holds.  A str is
  converted as above.  A list or a dict is iterable too (a dict yields its keys); an
  element is looked up in \<open>dic\<close>, which needs it hashable: a list or dict element raises
  \<open>TypeError\<close>, any other element that is not one of the three keys counts 0.  \<open>None\<close>, a
  bool and an int are not iterable.
\<close>

fun dic_get_json :: "uc_prot \<Rightarrow> json \<Rightarrow> error + int" where
  "dic_get_json uc (JStr k) = Inr (dict_get (dic uc) k 0)"
| "dic_get_json uc (JList _) = Inl TypeError"
| "dic_get_json uc (JObj _) = Inl TypeError"
| "dic_get_json uc _ = Inr 0"

fun perm_loop :: "uc_prot \<Rightarrow> json list \<Rightarrow> int \<Rightarrow> error + int" where
  "perm_loop uc [] perm = Inr perm"
| "perm_loop uc (ch # rest) perm =
     (case dic_get_json uc ch of
        Inl e \<Rightarrow> Inl e
      | Inr v \<Rightarrow> perm_loop uc rest (perm + v))"

fun perm2uc_any :: "uc_prot \<Rightarrow> json \<Rightarrow> error + int" where
  "perm2uc_any uc (JStr s) = Inr (perm2uc uc s)"
| "perm2uc_any uc (JList xs) = perm_loop uc xs (UC_PROT_NONE uc)"
| "perm2uc_any uc (JObj kvs) = perm_loop uc (map (JStr \<circ> fst) kvs) (UC_PROT_NONE uc)"
| "perm2uc_any uc _ = Inl TypeError"

subsection \<open>Constructors of the record classes\<close>

text \<open>
  \<open>Function\<close>, \<open>String\<close>, \<open>Symbol\<close> and \<open>Flag\<close> inherit \<open>R2Data.__init__\<close>.
  \<^verbatim>\<open>
  class Section(R2Data):
      def __init__(self, **kwargs):
          super().__init__(**kwargs)
          self.perm = Section.perm2uc(self.perm)

  class Xref(R2Data):
      def __init__(self, **kwargs):
          super().__init__(**kwargs)
          self.fromaddr = kwargs["from"]
  \<close>
  \<open>Section\<close> declares no default for \<open>perm\<close>, so reading it when it was not set raises
  \<open>AttributeError\<close>; \<open>kwargs["from"]\<close> raises \<open>KeyError\<close> when the key is absent.
\<close>

definition Section_init :: "uc_prot \<Rightarrow> (string \<times> json) list \<Rightarrow> error + attrs" where
  "Section_init uc kwargs =
     (let self = R2Data_init (field_names Section) kwargs
      in case self ''perm'' of
           None \<Rightarrow> Inl AttributeError
         | Some p \<Rightarrow>
             (case perm2uc_any uc p of
                Inl e \<Rightarrow> Inl e
              | Inr m \<Rightarrow> Inr (self(''perm'' \<mapsto> JInt m))))"

definition Xref_init :: "(string \<times> json) list \<Rightarrow> error + attrs" where
  "Xref_init kwargs =
     (let self = R2Data_init (field_names Xref) kwargs
      in case map_of kwargs ''from'' of
           None \<Rightarrow> Inl KeyError
         | Some v \<Rightarrow> Inr (self(''fromaddr'' \<mapsto> v)))"

text \<open>
  \<open>init\<close> is the \<open>__init__\<close> of each class on bound keyword arguments, \<open>new\<close> the call
  \<open>Cls(**mapping)\<close>.
\<close>

fun init :: "uc_prot \<Rightarrow> kind \<Rightarrow> (string \<times> json) list \<Rightarrow> error + attrs" where
  "init uc Section kwargs = Section_init uc kwargs"
| "init uc Xref kwargs = Xref_init kwargs"
| "init uc k kwargs = Inr (R2Data_init (field_names k) kwargs)"

definition new :: "uc_prot \<Rightarrow> kind \<Rightarrow> (string \<times> json) list \<Rightarrow> error + attrs" where
  "new uc k mapping =
     (case bind_kwargs mapping of
        Inl e \<Rightarrow> Inl e
      | Inr kwargs \<Rightarrow> init uc k kwargs)"

section \<open>Python operations on values\<close>

text \<open>
  Attribute lookup: the instance dictionary first, then the class attributes (the defaults
  a dataclass declares), else \<open>AttributeError\<close>.
\<close>

definition getattr :: "attrs \<Rightarrow> attrs \<Rightarrow> string \<Rightarrow> error + json" where
  "getattr cls self name =
     (case self name of
        Some v \<Rightarrow> Inr v
      | None \<Rightarrow> (case cls name of Some v \<Rightarrow> Inr v | None \<Rightarrow> Inl AttributeError))"

text \<open>
  \<open>Flag\<close> declares \<open>name: str = ''\<close> and \<open>size: int = 0\<close>, and no default for \<open>offset\<close>;
  \<open>Xref\<close> declares no default.
\<close>

definition Flag_class :: attrs where
  "Flag_class = [''name'' \<mapsto> JStr [], ''size'' \<mapsto> JInt 0]"

definition Xref_class :: attrs where
  "Xref_class = Map.empty"

text \<open>
  The fields compared and subtracted are declared \<open>int\<close>, and the query address is an
  int.  A Python bool is an int (\<open>True\<close> is 1); against an int, every other JSON value
  makes \<open><\<close> and \<open>-\<close> raise \<open>TypeError\<close>.  \<open>py_lt\<close> is \<open><\<close> with a number on one side at
  least, which is every comparison the resolver makes: its left operand is the offset of
  \<open>Flag(offset=addr)\<close>.  (Python also orders two strings or two lists; \<open>py_lt\<close> answers
  \<open>TypeError\<close> there, and no function below reaches that case.)  \<open>==\<close> never raises: a
  value that is not a number is different from every int.
\<close>

fun as_int :: "json \<Rightarrow> error + int" where
  "as_int (JInt n) = Inr n"
| "as_int (JBool b) = Inr (if b then 1 else 0)"
| "as_int _ = Inl TypeError"

definition py_lt :: "json \<Rightarrow> json \<Rightarrow> error + bool" where
  "py_lt a b =
     (case as_int a of
        Inl e \<Rightarrow> Inl e
      | Inr x \<Rightarrow> (case as_int b of Inl e \<Rightarrow> Inl e | Inr y \<Rightarrow> Inr (x < y)))"

definition py_sub :: "int \<Rightarrow> json \<Rightarrow> error + int" where
  "py_sub a b = (case as_int b of Inl e \<Rightarrow> Inl e | Inr y \<Rightarrow> Inr (a - y))"

definition py_eq_int :: "json \<Rightarrow> int \<Rightarrow> bool" where
  "py_eq_int v a = (case as_int v of Inl e \<Rightarrow> False | Inr n \<Rightarrow> n = a)"

text \<open>\<open>xs[i]\<close> on a list: a negative index counts from the end, out of range raises.\<close>

definition py_getitem :: "'a list \<Rightarrow> int \<Rightarrow> error + 'a" where
  "py_getitem xs i =
     (let n = int (length xs); j = (if i < 0 then n + i else i)
      in if 0 \<le> j \<and> j < n then Inr (xs ! nat j) else Inl IndexError)"

text \<open>
  \<open>for dic in value\<close>: a list yields its elements, a dict its keys, a str its
  one-character strings; \<open>None\<close>, a bool and an int are not iterable.
\<close>

fun py_iter :: "json \<Rightarrow> error + json list" where
  "py_iter (JList xs) = Inr xs"
| "py_iter (JObj kvs) = Inr (map (JStr \<circ> fst) kvs)"
| "py_iter (JStr s) = Inr (map JStr (str_iter s))"
| "py_iter _ = Inl TypeError"

text \<open>
  \<open>Cls(**dic)\<close> on a decoded value needs a mapping, whose keys are then bound as above;
  \<open>dic[key]\<close> with a string key needs a dict that has it.
\<close>

fun kwargs_of :: "json \<Rightarrow> error + (string \<times> json) list" where
  "kwargs_of (JObj kvs) = bind_kwargs kvs"
| "kwargs_of _ = Inl TypeError"

fun py_subscript :: "json \<Rightarrow> string \<Rightarrow> error + json" where
  "py_subscript (JObj kvs) k = (case map_of kvs k of None \<Rightarrow> Inl KeyError | Some v \<Rightarrow> Inr v)"
| "py_subscript _ k = Inl TypeError"

text \<open>
  A dict built by a comprehension, in insertion order.  A key must be hashable (a list or
  a dict is not); a key equal to one already present (\<open>True == 1\<close>) keeps the old key and
  its position and replaces the value.
\<close>

fun hashable :: "json \<Rightarrow> bool" where
  "hashable (JList _) = False"
| "hashable (JObj _) = False"
| "hashable _ = True"

fun key_norm :: "json \<Rightarrow> json" where
  "key_norm (JBool b) = JInt (if b then 1 else 0)"
| "key_norm v = v"

fun dict_insert :: "(json \<times> 'v) list \<Rightarrow> json \<Rightarrow> 'v \<Rightarrow> (json \<times> 'v) list" where
  "dict_insert [] k v = [(k, v)]"
| "dict_insert ((k', v') # d) k v =
     (if key_norm k' = key_norm k then (k', v) # d else (k', v') # dict_insert d k v)"

definition dict_set :: "(json \<times> 'v) list \<Rightarrow> json \<Rightarrow> 'v \<Rightarrow> error + (json \<times> 'v) list" where
  "dict_set d k v = (if hashable k then Inr (dict_insert d k v) else Inl TypeError)"

definition dict_values :: "('k \<times> 'v) list \<Rightarrow> 'v list" where
  "dict_values d = map snd d"

section \<open>The address resolver on a list of flags\<close>

text \<open>
  \<^verbatim>\<open>
  class Flag(R2Data):
      def __lt__(self, other):
          return self.offset < other.offset
  \<close>
\<close>

definition Flag_lt :: "attrs \<Rightarrow> attrs \<Rightarrow> error + bool" where
  "Flag_lt self other =
     (case getattr Flag_class self ''offset'' of
        Inl e \<Rightarrow> Inl e
      | Inr a \<Rightarrow>
          (case getattr Flag_class other ''offset'' of
             Inl e \<Rightarrow> Inl e
           | Inr b \<Rightarrow> py_lt a b))"

text \<open>
  \<open>bisect.bisect_right(a, x)\<close> of the standard library, with \<open>lo = 0\<close> and
  \<open>hi = len(a)\<close>:
  \<^verbatim>\<open>
  while lo < hi:
      mid = (lo + hi) // 2
      if x < a[mid]: hi = mid
      else: lo = mid + 1
  return lo
  \<close>
\<close>

function bisect_loop :: "attrs list \<Rightarrow> attrs \<Rightarrow> nat \<Rightarrow> nat \<Rightarrow> error + nat" where
  "bisect_loop a x lo hi =
     (if lo < hi then
        (case py_getitem a (int ((lo + hi) div 2)) of
           Inl e \<Rightarrow> Inl e
         | Inr y \<Rightarrow>
             (case Flag_lt x y of
                Inl e \<Rightarrow> Inl e
              | Inr b \<Rightarrow>
                  if b then bisect_loop a x lo ((lo + hi) div 2)
                  else bisect_loop a x ((lo + hi) div 2 + 1) hi))
      else Inr lo)"
  by pat_completeness auto
termination
  by (relation "measure (\<lambda>(a, x, lo, hi). hi - lo)") auto

declare bisect_loop.simps [simp del]

definition bisect_right :: "attrs list \<Rightarrow> attrs \<Rightarrow> error + nat" where
  "bisect_right a x = bisect_loop a x 0 (length a)"

text \<open>
  \<^verbatim>\<open>
  def at(self, addr: int) -> Tuple[Flag, int]:
      idx = bisect.bisect_right(self.flags, Flag(offset=addr))
      flag = self.flags[idx - 1]
      return flag, addr - flag.offset

  def resolve(self, addr: int) -> Tuple[str, int]:
      flag, offset = self.at(addr)
      return flag.name, offset
  \<close>
  \<open>at_flags\<close> is \<open>at\<close> on the value of \<open>self.flags\<close>; \<open>at\<close> and \<open>resolve\<close> on a session
  follow the views.
\<close>

definition at_flags :: "attrs list \<Rightarrow> int \<Rightarrow> error + (attrs \<times> int)" where
  "at_flags flags addr =
     (case bisect_right flags (R2Data_init (field_names Flag) [(''offset'', JInt addr)]) of
        Inl e \<Rightarrow> Inl e
      | Inr idx \<Rightarrow>
          (case py_getitem flags (int idx - 1) of
             Inl e \<Rightarrow> Inl e
           | Inr flag \<Rightarrow>
               (case getattr Flag_class flag ''offset'' of
                  Inl e \<Rightarrow> Inl e
                | Inr off \<Rightarrow>
                    (case py_sub addr off of
                       Inl e \<Rightarrow> Inl e
                     | Inr d \<Rightarrow> Inr (flag, d)))))"

section \<open>The session: engine commands, the analysis gate, cached views\<close>

text \<open>
  The radare2 core (\<open>libr\<close>) is outside the repository.  It is a parameter: what \<open>_cmd\<close>
  gets for a command, which may depend on the commands sent before it, and \<open>json.loads\<close> of
  the standard library, which either decodes a text or raises.  \<open>_cmd\<close> sends the command
  and then decodes the bytes of the reply as UTF-8: it returns the text, or raises (a
  \<open>UnicodeDecodeError\<close> for bytes that are not UTF-8) after the command was sent.
\<close>

record engine =
  r_core_cmd_str :: "string list \<Rightarrow> string \<Rightarrow> error + string"
  json_loads :: "string \<Rightarrow> error + json"

text \<open>
  The state of an \<open>R2\<close> object: the attribute \<open>analyzed\<close>, the commands sent to the core so
  far (oldest first), and the value each \<open>cached_property\<close> stored, if any.
\<close>

record session =
  analyzed :: bool
  issued :: "string list"
  functions_cache :: "(json \<times> attrs) list option"
  flags_cache :: "attrs list option"
  xrefs_cache :: "(json \<times> attrs) list option"

text \<open>
  \<^verbatim>\<open>
  def _cmd(self, cmd: str) -> str:
      r = libr.r_core.r_core_cmd_str(self._r2c, ctypes.create_string_buffer(cmd.encode("utf-8")))
      return ctypes.string_at(r).decode('utf-8')

  def _cmdj(self, cmd: str) -> Union[Dict, List[Dict]]:
      return json.loads(self._cmd(cmd))
  \<close>
\<close>

definition cmd :: "engine \<Rightarrow> string \<Rightarrow> session \<Rightarrow> (error + string) \<times> session" where
  "cmd eng c s = (r_core_cmd_str eng (issued s) c, s\<lparr>issued := issued s @ [c]\<rparr>)"

definition cmdj :: "engine \<Rightarrow> string \<Rightarrow> session \<Rightarrow> (error + json) \<times> session" where
  "cmdj eng c s =
     (case cmd eng c s of
        (Inl e, s') \<Rightarrow> (Inl e, s')
      | (Inr r, s') \<Rightarrow> (json_loads eng r, s'))"

text \<open>
  \<^verbatim>\<open>
  def aaa(fun):
      def wrapper(self):
          if self.analyzed is False:
              self._cmd("aaa")
              self.analyzed = True
          return fun(self)
      return wrapper
  \<close>
  When \<open>self._cmd("aaa")\<close> raises, the wrapper raises with it: the command was sent,
  \<open>analyzed\<close> is still unset and \<open>fun\<close> does not run.
\<close>

definition aaa ::
  "(engine \<Rightarrow> session \<Rightarrow> (error + 'a) \<times> session) \<Rightarrow> engine \<Rightarrow> session \<Rightarrow> (error + 'a) \<times> session"
where
  "aaa f eng s =
     (if analyzed s = False then
        (case cmd eng ''aaa'' s of
           (Inl e, s') \<Rightarrow> (Inl e, s')
         | (Inr r, s') \<Rightarrow> f eng (s'\<lparr>analyzed := True\<rparr>))
      else f eng s)"

text \<open>
  The bodies of the three analysis-dependent views.
  \<^verbatim>\<open>
  def functions(self): fcn_lst = self._cmdj("aflj")
                       return {dic['name']: Function(**dic) for dic in fcn_lst}
  def flags(self):     return [Flag(**dic) for dic in self._cmdj("fj")]
  def xrefs(self):     return {dic['from']: Xref(**dic) for dic in self._cmdj("axj")}
  \<close>
  A comprehension stops at the first element that raises.  A dict comprehension evaluates
  the key, then the value, then stores the pair.
\<close>

fun functions_comp :: "json list \<Rightarrow> (json \<times> attrs) list \<Rightarrow> error + (json \<times> attrs) list" where
  "functions_comp [] d = Inr d"
| "functions_comp (dc # rest) d =
     (case py_subscript dc ''name'' of
        Inl e \<Rightarrow> Inl e
      | Inr k \<Rightarrow>
          (case kwargs_of dc of
             Inl e \<Rightarrow> Inl e
           | Inr kw \<Rightarrow>
               (case dict_set d k (R2Data_init (field_names Function) kw) of
                  Inl e \<Rightarrow> Inl e
                | Inr d' \<Rightarrow> functions_comp rest d')))"

fun flags_comp :: "json list \<Rightarrow> error + attrs list" where
  "flags_comp [] = Inr []"
| "flags_comp (dc # rest) =
     (case kwargs_of dc of
        Inl e \<Rightarrow> Inl e
      | Inr kw \<Rightarrow>
          (case flags_comp rest of
             Inl e \<Rightarrow> Inl e
           | Inr fs \<Rightarrow> Inr (R2Data_init (field_names Flag) kw # fs)))"

fun xrefs_comp :: "json list \<Rightarrow> (json \<times> attrs) list \<Rightarrow> error + (json \<times> attrs) list" where
  "xrefs_comp [] d = Inr d"
| "xrefs_comp (dc # rest) d =
     (case py_subscript dc ''from'' of
        Inl e \<Rightarrow> Inl e
      | Inr k \<Rightarrow>
          (case kwargs_of dc of
             Inl e \<Rightarrow> Inl e
           | Inr kw \<Rightarrow>
               (case Xref_init kw of
                  Inl e \<Rightarrow> Inl e
                | Inr x \<Rightarrow>
                    (case dict_set d k x of
                       Inl e \<Rightarrow> Inl e
                     | Inr d' \<Rightarrow> xrefs_comp rest d'))))"

definition functions_body :: "engine \<Rightarrow> session \<Rightarrow> (error + (json \<times> attrs) list) \<times> session" where
  "functions_body eng s =
     (case cmdj eng ''aflj'' s of
        (Inl e, s') \<Rightarrow> (Inl e, s')
      | (Inr fcn_lst, s') \<Rightarrow>
          (case py_iter fcn_lst of
             Inl e \<Rightarrow> (Inl e, s')
           | Inr dics \<Rightarrow> (functions_comp dics [], s')))"

definition flags_body :: "engine \<Rightarrow> session \<Rightarrow> (error + attrs list) \<times> session" where
  "flags_body eng s =
     (case cmdj eng ''fj'' s of
        (Inl e, s') \<Rightarrow> (Inl e, s')
      | (Inr reply, s') \<Rightarrow>
          (case py_iter reply of
             Inl e \<Rightarrow> (Inl e, s')
           | Inr dics \<Rightarrow> (flags_comp dics, s')))"

definition xrefs_body :: "engine \<Rightarrow> session \<Rightarrow> (error + (json \<times> attrs) list) \<times> session" where
  "xrefs_body eng s =
     (case cmdj eng ''axj'' s of
        (Inl e, s') \<Rightarrow> (Inl e, s')
      | (Inr reply, s') \<Rightarrow>
          (case py_iter reply of
             Inl e \<Rightarrow> (Inl e, s')
           | Inr dics \<Rightarrow> (xrefs_comp dics [], s')))"

text \<open>
  \<open>functools.cached_property\<close>: a stored value is returned as it is; otherwise the wrapped
  function runs, and its value is stored only when it returns.
\<close>

definition functions_view :: "engine \<Rightarrow> session \<Rightarrow> (error + (json \<times> attrs) list) \<times> session" where
  "functions_view eng s =
     (case functions_cache s of
        Some v \<Rightarrow> (Inr v, s)
      | None \<Rightarrow>
          (case aaa functions_body eng s of
             (Inl e, s') \<Rightarrow> (Inl e, s')
           | (Inr v, s') \<Rightarrow> (Inr v, s'\<lparr>functions_cache := Some v\<rparr>)))"

definition flags :: "engine \<Rightarrow> session \<Rightarrow> (error + attrs list) \<times> session" where
  "flags eng s =
     (case flags_cache s of
        Some v \<Rightarrow> (Inr v, s)
      | None \<Rightarrow>
          (case aaa flags_body eng s of
             (Inl e, s') \<Rightarrow> (Inl e, s')
           | (Inr v, s') \<Rightarrow> (Inr v, s'\<lparr>flags_cache := Some v\<rparr>)))"

definition xrefs :: "engine \<Rightarrow> session \<Rightarrow> (error + (json \<times> attrs) list) \<times> session" where
  "xrefs eng s =
     (case xrefs_cache s of
        Some v \<Rightarrow> (Inr v, s)
      | None \<Rightarrow>
          (case aaa xrefs_body eng s of
             (Inl e, s') \<Rightarrow> (Inl e, s')
           | (Inr v, s') \<Rightarrow> (Inr v, s'\<lparr>xrefs_cache := Some v\<rparr>)))"

text \<open>
  \<open>at\<close> on a session reads \<open>self.flags\<close> (the second read in \<open>at\<close> finds the value the
  first one stored) and then works on that list; \<open>resolve\<close> calls \<open>at\<close>.
\<close>

definition at :: "engine \<Rightarrow> session \<Rightarrow> int \<Rightarrow> (error + (attrs \<times> int)) \<times> session" where
  "at eng s addr =
     (case flags eng s of
        (Inl e, s') \<Rightarrow> (Inl e, s')
      | (Inr fl, s') \<Rightarrow> (at_flags fl addr, s'))"

definition resolve :: "engine \<Rightarrow> session \<Rightarrow> int \<Rightarrow> (error + (json \<times> int)) \<times> session" where
  "resolve eng s addr =
     (case at eng s addr of
        (Inl e, s') \<Rightarrow> (Inl e, s')
      | (Inr (flag, offset), s') \<Rightarrow>
          (case getattr Flag_class flag ''name'' of
             Inl e \<Rightarrow> (Inl e, s')
           | Inr n \<Rightarrow> (Inr (n, offset), s')))"

text \<open>
  \<^verbatim>\<open>
  def refto(self, addr: int) -> List[Xref]:
      return [xref for xref in self.xrefs.values() if xref.addr == addr]
  \<close>
\<close>

fun refto_values :: "attrs list \<Rightarrow> int \<Rightarrow> error + attrs list" where
  "refto_values [] addr = Inr []"
| "refto_values (xref # rest) addr =
     (case getattr Xref_class xref ''addr'' of
        Inl e \<Rightarrow> Inl e
      | Inr v \<Rightarrow>
          (case refto_values rest addr of
             Inl e \<Rightarrow> Inl e
           | Inr xs \<Rightarrow> Inr (if py_eq_int v addr then xref # xs else xs)))"

definition refto :: "engine \<Rightarrow> session \<Rightarrow> int \<Rightarrow> (error + attrs list) \<times> session" where
  "refto eng s addr =
     (case xrefs eng s of
        (Inl e, s') \<Rightarrow> (Inl e, s')
      | (Inr d, s') \<Rightarrow> (refto_values (dict_values d) addr, s'))"

text \<open>
  A session as \<open>R2.__init__\<close> leaves it, with the commands the setup sent (\<open>wx\<close> and
  \<open>e,asm.arch=...\<close> for a code buffer, none for a file), and a run of accesses to the
  analysis-dependent views, whatever each access returns or raises.
\<close>

definition new_session :: "string list \<Rightarrow> session" where
  "new_session setup =
     \<lparr>analyzed = False, issued = setup, functions_cache = None, flags_cache = None,
      xrefs_cache = None\<rparr>"

datatype view = Functions | Flags | Xrefs

fun access :: "engine \<Rightarrow> view \<Rightarrow> session \<Rightarrow> session" where
  "access eng Functions s = snd (functions_view eng s)"
| "access eng Flags s = snd (flags eng s)"
| "access eng Xrefs s = snd (xrefs eng s)"

definition run :: "engine \<Rightarrow> view list \<Rightarrow> session \<Rightarrow> session" where
  "run eng vs s = fold (access eng) vs s"

section \<open>Notions used to state the properties\<close>

text \<open>
  The value one character of a permission string stands for, the union of the bits of a
  string (what a bitmask conversion would give), and the integer a record holds in a field
  declared \<open>int\<close> (none when the attribute is missing or not a number).
\<close>

definition perm_value :: "uc_prot \<Rightarrow> char \<Rightarrow> int" where
  "perm_value uc c =
     (if c = CHR ''r'' then UC_PROT_READ uc
      else if c = CHR ''w'' then UC_PROT_WRITE uc
      else if c = CHR ''x'' then UC_PROT_EXEC uc
      else 0)"

definition perm_union :: "uc_prot \<Rightarrow> string \<Rightarrow> int" where
  "perm_union uc s = fold (\<lambda>c m. m OR perm_value uc c) s 0"

definition int_field :: "string \<Rightarrow> attrs \<Rightarrow> int option" where
  "int_field name self =
     (case self name of
        None \<Rightarrow> None
      | Some v \<Rightarrow> (case as_int v of Inl e \<Rightarrow> None | Inr n \<Rightarrow> Some n))"

definition flag_offset :: "attrs \<Rightarrow> int option" where
  "flag_offset f = int_field ''offset'' f"

definition xref_addr :: "attrs \<Rightarrow> int option" where
  "xref_addr x = int_field ''addr'' x"

text \<open>The name of a flag: the attribute, or the class default \<open>''\<close>.\<close>

definition flag_name :: "attrs \<Rightarrow> json" where
  "flag_name f = (case f ''name'' of None \<Rightarrow> JStr [] | Some v \<Rightarrow> v)"

text \<open>
  A list of flags is sorted ascending by offset when every flag has an integer offset and
  the offsets are in non-decreasing order.
\<close>

definition flag_offsets :: "attrs list \<Rightarrow> int list" where
  "flag_offsets fs = map (the \<circ> flag_offset) fs"

definition sorted_flags :: "attrs list \<Rightarrow> bool" where
  "sorted_flags fs \<longleftrightarrow>
     list_all (\<lambda>f. flag_offset f \<noteq> None) fs \<and> sorted (flag_offsets fs)"

text \<open>The same for the records of an engine reply, before any \<open>Flag\<close> is built.\<close>

definition reply_offset :: "(string \<times> json) list \<Rightarrow> int option" where
  "reply_offset d =
     (case map_of (rev d) ''offset'' of
        None \<Rightarrow> None
      | Some v \<Rightarrow> (case as_int v of Inl e \<Rightarrow> None | Inr n \<Rightarrow> Some n))"

definition sorted_reply :: "(string \<times> json) list list \<Rightarrow> bool" where
  "sorted_reply ds \<longleftrightarrow>
     list_all (\<lambda>d. reply_offset d \<noteq> None) ds \<and> sorted (map (the \<circ> reply_offset) ds)"

text \<open>\<open>Flag(offset=addr)\<close>, the synthetic flag \<open>at\<close> searches with.\<close>

definition query :: "int \<Rightarrow> attrs" where
  "query addr = R2Data_init (field_names Flag) [(''offset'', JInt addr)]"

text \<open>
  The command behind each analysis-dependent view, whether a view is already stored, and
  whether \<open>_cmd("aaa")\<close> returns when it is sent after the commands \<open>h\<close>.
\<close>

fun view_cmd :: "view \<Rightarrow> string" where
  "view_cmd Functions = ''aflj''"
| "view_cmd Flags = ''fj''"
| "view_cmd Xrefs = ''axj''"

fun cached :: "view \<Rightarrow> session \<Rightarrow> bool" where
  "cached Functions s = (functions_cache s \<noteq> None)"
| "cached Flags s = (flags_cache s \<noteq> None)"
| "cached Xrefs s = (xrefs_cache s \<noteq> None)"

definition aaa_returns :: "engine \<Rightarrow> string list \<Rightarrow> bool" where
  "aaa_returns eng h = (case r_core_cmd_str eng h ''aaa'' of Inl e \<Rightarrow> False | Inr r \<Rightarrow> True)"

text \<open>
  The bookkeeping of the gate on a run that starts from the command log \<open>h0\<close>: until
  \<open>analyzed\<close> is set nothing was sent, and from then on \<open>aaa\<close> is in the log once.
\<close>

definition gate_inv :: "string list \<Rightarrow> session \<Rightarrow> bool" where
  "gate_inv h0 s \<longleftrightarrow>
     (if analyzed s then count_list (issued s) ''aaa'' = 1 else issued s = h0)"

section \<open>A stand-in engine and example sessions\<close>

text \<open>
  A core that answers each listed command with the listed text, which \<open>json.loads\<close>
  decodes to the listed value; any other command gets the empty text.  The first example
  is the binary of the specification's end-to-end test, with the flags \<open>start\<close> at
  \<open>0x10\<close> and \<open>mid\<close> at \<open>0x20\<close>.  The second returns the same flags in the opposite order,
  the third two flags at one address.  The last core answers \<open>aaa\<close> with bytes that are
  not UTF-8.
\<close>

definition stub_engine :: "(string \<times> string \<times> json) list \<Rightarrow> engine" where
  "stub_engine table =
     \<lparr>r_core_cmd_str =
        (\<lambda>history c. Inr (case map_of table c of None \<Rightarrow> [] | Some (text, v) \<Rightarrow> text)),
      json_loads =
        (\<lambda>text. case map_of (map snd table) text of
                   None \<Rightarrow> Inl JSONDecodeError
                 | Some v \<Rightarrow> Inr v)\<rparr>"

definition example_fj :: "(string \<times> json) list list" where
  "example_fj =
     [[(''name'', JStr ''start''), (''size'', JInt 1), (''offset'', JInt 16),
       (''realname'', JStr ''start'')],
      [(''name'', JStr ''mid''), (''size'', JInt 1), (''offset'', JInt 32),
       (''realname'', JStr ''mid'')]]"

definition example_axj :: "(string \<times> json) list list" where
  "example_axj =
     [[(''name'', JStr ''start+4''), (''from'', JInt 20), (''type'', JStr ''CALL''),
       (''addr'', JInt 32), (''refname'', JStr ''mid'')],
      [(''name'', JStr ''start+8''), (''from'', JInt 24), (''type'', JStr ''DATA''),
       (''addr'', JInt 16), (''refname'', JStr ''start'')],
      [(''name'', JStr ''mid+4''), (''from'', JInt 36), (''type'', JStr ''CALL''),
       (''addr'', JInt 32), (''refname'', JStr ''mid'')]]"

definition example_engine :: engine where
  \<open>example_engine = stub_engine
     [(''fj'',
       ''[{"name":"start","size":1,"offset":16,"realname":"start"},{"name":"mid","size":1,"offset":32,"realname":"mid"}]'',
       JList (map JObj example_fj)),
      (''axj'',
       ''[{"name":"start+4","from":20,"type":"CALL","addr":32,"refname":"mid"},{"name":"start+8","from":24,"type":"DATA","addr":16,"refname":"start"},{"name":"mid+4","from":36,"type":"CALL","addr":32,"refname":"mid"}]'',
       JList (map JObj example_axj)),
      (''aflj'', ''[]'', JList [])]\<close>

definition unsorted_engine :: engine where
  \<open>unsorted_engine = stub_engine
     [(''fj'',
       ''[{"name":"mid","size":1,"offset":32,"realname":"mid"},{"name":"start","size":1,"offset":16,"realname":"start"}]'',
       JList (map JObj (rev example_fj)))]\<close>

definition tied_fj :: "(string \<times> json) list list" where
  "tied_fj =
     [[(''name'', JStr ''main''), (''size'', JInt 1), (''offset'', JInt 16)],
      [(''name'', JStr ''sym.main''), (''size'', JInt 1), (''offset'', JInt 16)]]"

definition tied_engine :: engine where
  \<open>tied_engine = stub_engine
     [(''fj'',
       ''[{"name":"main","size":1,"offset":16},{"name":"sym.main","size":1,"offset":16}]'',
       JList (map JObj tied_fj))]\<close>

definition undecodable_engine :: engine where
  "undecodable_engine =
     \<lparr>r_core_cmd_str = (\<lambda>history c. if c = ''aaa'' then Inl UnicodeDecodeError else Inr []),
      json_loads = (\<lambda>text. Inl JSONDecodeError)\<rparr>"

definition example_flags :: "attrs list" where
  "example_flags = map (R2Data_init (field_names Flag)) example_fj"

definition example_xrefs :: "(json \<times> attrs) list" where
  "example_xrefs = (case xrefs_comp (map JObj example_axj) [] of Inl e \<Rightarrow> [] | Inr d \<Rightarrow> d)"

definition example_session :: session where
  "example_session = run example_engine [Flags, Xrefs] (new_session [])"

section \<open>Properties\<close>

subsection \<open>Evaluating the examples\<close>

lemmas session_defs = run_def flags_def xrefs_def functions_view_def aaa_def cmd_def cmdj_def
  flags_body_def xrefs_body_def functions_body_def new_session_def stub_engine_def
  Xref_init_def dict_set_def bind_kwargs_def

lemma example_session_caches:
  "flags_cache example_session = Some example_flags"
  "xrefs_cache example_session = Some example_xrefs"
  by (simp_all add: example_session_def example_engine_def session_defs example_flags_def
        example_fj_def example_xrefs_def example_axj_def)

lemma example_flags_facts:
  "sorted_flags example_flags" "example_flags \<noteq> []" "length example_flags = 2"
  "flag_offset (example_flags ! 0) = Some 16" "flag_offset (example_flags ! 1) = Some 32"
  "flag_offset (example_flags ! Suc 0) = Some 32"
  "flag_offset (hd example_flags) = Some 16" "flag_offset (last example_flags) = Some 32"
  "flag_name (example_flags ! 0) = JStr ''start''" "flag_name (example_flags ! 1) = JStr ''mid''"
  "flag_name (last example_flags) = JStr ''mid''"
  "map flag_offset example_flags = [Some 16, Some 32]"
  by (simp_all add: sorted_flags_def flag_offsets_def flag_offset_def int_field_def flag_name_def
        example_flags_def example_fj_def R2Data_init_def)

lemma example_xrefs_facts:
  "\<forall>x\<in>set (dict_values example_xrefs). x ''addr'' \<noteq> None"
  "map (\<lambda>x. x ''fromaddr'') (filter (\<lambda>x. xref_addr x = Some 32) (dict_values example_xrefs))
     = [Some (JInt 20), Some (JInt 36)]"
  by (simp_all add: example_xrefs_def example_axj_def dict_values_def dict_set_def Xref_init_def
        bind_kwargs_def R2Data_init_def xref_addr_def int_field_def)

subsection \<open>Permission strings\<close>

lemma fold_add_sum_list:
  "fold (\<lambda>x acc. acc + f x) xs (a::int) = a + sum_list (map f xs)"
  by (induction xs arbitrary: a) simp_all

lemma dict_get_dic: "dict_get (dic uc) [c] 0 = perm_value uc c"
  by (simp add: dict_get_def dic_def perm_value_def)

lemma perm2uc_sum: "perm2uc uc s = UC_PROT_NONE uc + sum_list (map (perm_value uc) s)"
  by (simp add: perm2uc_def str_iter_def fold_add_sum_list comp_def dict_get_dic)

lemma sum_list_perm_filter:
  "sum_list (map (perm_value uc) (filter (\<lambda>c. c \<in> {CHR ''r'', CHR ''w'', CHR ''x''}) s))
     = sum_list (map (perm_value uc) s)"
  by (induction s) (auto simp: perm_value_def)

lemma fold_or_replicate:
  "fold (\<lambda>c m. m OR f c) (replicate n c) (a::int) = (if n = 0 then a else a OR f c)"
  by (induction n arbitrary: a) (simp_all add: or.assoc)

lemma perm_union_replicate: "0 < n \<Longrightarrow> perm_union uc (replicate n c) = perm_value uc c"
  by (simp add: perm_union_def fold_or_replicate del: fold_replicate)

text \<open>
  Claim C6.  When the protection constants are disjoint bits and \<open>UC_PROT_NONE\<close> is 0,
  \<open>perm2uc\<close> maps \<open>"-rwx"\<close> to the union of the read, write and execute bits and \<open>"---"\<close>
  to 0; for any string, the characters outside \<open>r\<close>, \<open>w\<close>, \<open>x\<close> can be dropped without
  changing the result, and the conversion of a string returns a value, never an error.
\<close>

theorem perm2uc_permission_strings:
  assumes "prot_bits uc"
  shows "perm2uc uc ''-rwx'' = UC_PROT_READ uc OR UC_PROT_WRITE uc OR UC_PROT_EXEC uc
       \<and> perm2uc uc ''---'' = 0
       \<and> perm2uc uc s = perm2uc uc (filter (\<lambda>c. c \<in> {CHR ''r'', CHR ''w'', CHR ''x''}) s)
       \<and> perm2uc_any uc (JStr s) = Inr (perm2uc uc s)"
proof -
  from assms have none: "UC_PROT_NONE uc = 0"
    and rw: "UC_PROT_READ uc AND UC_PROT_WRITE uc = 0"
    and rx: "UC_PROT_READ uc AND UC_PROT_EXEC uc = 0"
    and wx: "UC_PROT_WRITE uc AND UC_PROT_EXEC uc = 0"
    by (simp_all add: prot_bits_def)
  have "UC_PROT_READ uc + UC_PROT_WRITE uc = UC_PROT_READ uc OR UC_PROT_WRITE uc"
    using rw by (rule disjunctive_add_eq_or)
  moreover have "(UC_PROT_READ uc OR UC_PROT_WRITE uc) AND UC_PROT_EXEC uc = 0"
    using rx wx by (simp add: bit.conj_disj_distrib2)
  then have "(UC_PROT_READ uc OR UC_PROT_WRITE uc) + UC_PROT_EXEC uc
      = UC_PROT_READ uc OR UC_PROT_WRITE uc OR UC_PROT_EXEC uc"
    by (simp add: disjunctive_add_eq_or or.assoc)
  ultimately have "perm2uc uc ''-rwx'' = UC_PROT_READ uc OR UC_PROT_WRITE uc OR UC_PROT_EXEC uc"
    by (simp add: perm2uc_sum none perm_value_def)
  moreover have "perm2uc uc ''---'' = 0"
    by (simp add: perm2uc_sum none perm_value_def)
  moreover have "perm2uc uc s = perm2uc uc (filter (\<lambda>c. c \<in> {CHR ''r'', CHR ''w'', CHR ''x''}) s)"
    by (simp only: perm2uc_sum sum_list_perm_filter)
  ultimately show ?thesis by simp
qed

text \<open>With unicorn's constants: \<open>"-rwx"\<close> gives 7, and \<open>"r?x"\<close> gives what \<open>"rx"\<close> gives.\<close>

theorem perm2uc_permission_strings_witness:
  "prot_bits unicorn_prot \<and> perm2uc unicorn_prot ''-rwx'' = 7
     \<and> perm2uc unicorn_prot ''---'' = 0
     \<and> perm2uc unicorn_prot ''r?x'' = perm2uc unicorn_prot ''rx''
     \<and> perm2uc_any unicorn_prot (JStr ''r?x'') = Inr 5"
  using perm2uc_permission_strings [of unicorn_prot "''r?x''"]
  by (simp add: prot_bits_def unicorn_prot_def perm2uc_sum perm_value_def)

text \<open>
  Claim C10.  With \<open>UC_PROT_NONE = 0\<close>, \<open>perm2uc s\<close> is the arithmetic sum of the values of
  the characters of \<open>s\<close>.  A character repeated \<open>n\<close> times gives \<open>n\<close> times its value, which
  differs from the union of the bits as soon as \<open>n \<ge> 2\<close> and the value is not 0.
\<close>

theorem perm2uc_arithmetic_sum:
  assumes "UC_PROT_NONE uc = 0"
  shows "perm2uc uc s = sum_list (map (perm_value uc) s)
       \<and> perm2uc uc (replicate n c) = int n * perm_value uc c
       \<and> (2 \<le> n \<and> perm_value uc c \<noteq> 0 \<longrightarrow>
            perm2uc uc (replicate n c) \<noteq> perm_union uc (replicate n c))"
proof -
  have a: "perm2uc uc s = sum_list (map (perm_value uc) s)"
    by (simp add: perm2uc_sum assms)
  have b: "perm2uc uc (replicate n c) = int n * perm_value uc c"
    by (simp add: perm2uc_sum assms sum_list_replicate)
  have c: "perm2uc uc (replicate n c) \<noteq> perm_union uc (replicate n c)"
    if "2 \<le> n" "perm_value uc c \<noteq> 0"
  proof -
    have "int n * perm_value uc c \<noteq> perm_value uc c"
      using that by simp
    then show ?thesis using that by (simp add: b perm_union_replicate)
  qed
  from a b c show ?thesis by blast
qed

text \<open>With unicorn's constants: \<open>"rr"\<close> gives 2, where the union of its bits is 1.\<close>

theorem perm2uc_arithmetic_sum_witness:
  "UC_PROT_NONE unicorn_prot = 0 \<and> (2::nat) \<le> 2 \<and> perm_value unicorn_prot CHR ''r'' \<noteq> 0
     \<and> perm2uc unicorn_prot ''rr'' = 2 \<and> perm_union unicorn_prot ''rr'' = 1
     \<and> perm2uc unicorn_prot ''rwr'' = 4"
  using perm2uc_arithmetic_sum [of unicorn_prot "''rwr''" 2 "CHR ''r''"]
  by (simp add: unicorn_prot_def perm_value_def perm_union_def numeral_2_eq_2)

subsection \<open>Construction of records\<close>

lemma fold_setattr:
  "fold (\<lambda>(k, v) self. if k \<in> N then self(k \<mapsto> v) else self) kwargs m
     = (\<lambda>k. if k \<in> N then (case map_of (rev kwargs) k of Some v \<Rightarrow> Some v | None \<Rightarrow> m k)
            else m k)"
proof (induction kwargs arbitrary: m)
  case Nil
  then show ?case by (auto simp: fun_eq_iff)
next
  case (Cons kv kwargs)
  obtain k v where kv: "kv = (k, v)" by (cases kv)
  show ?case
    unfolding kv
    by (simp add: Cons.IH fun_eq_iff map_add_def split: option.splits)
qed

lemma R2Data_init_restrict:
  "R2Data_init fnames kwargs = map_of (rev kwargs) |` set fnames"
  by (simp add: R2Data_init_def fold_setattr restrict_map_def fun_eq_iff split: option.splits)

lemma dom_R2Data_init: "dom (R2Data_init fnames kwargs) = fst ` set kwargs \<inter> set fnames"
  by (auto simp: R2Data_init_restrict dom_map_of_conv_image_fst)

lemma bind_kwargs_ok: "''self'' \<notin> fst ` set kwargs \<Longrightarrow> bind_kwargs kwargs = Inr kwargs"
  by (simp add: bind_kwargs_def)

text \<open>
  Claim C7, as amended.  For a mapping without the key \<open>self\<close>: \<open>R2Data.__init__\<close> sets
  exactly the attributes that the mapping names and the class declares, each to the
  mapping's value, and drops every other field; \<open>Function\<close>, \<open>String\<close>, \<open>Symbol\<close> and
  \<open>Flag\<close> are constructed by it alone and raise nothing.  \<open>Xref\<close> also stores the
  undeclared field \<open>from\<close> as \<open>fromaddr\<close> and raises \<open>KeyError\<close> without it; \<open>Section\<close> also
  replaces \<open>perm\<close> by the result of \<open>perm2uc\<close> and raises \<open>AttributeError\<close> when the mapping
  has no \<open>perm\<close>.
\<close>

theorem record_construction_filters_fields:
  assumes "''self'' \<notin> fst ` set kwargs"
  shows "R2Data_init fnames kwargs = map_of (rev kwargs) |` set fnames
   \<and> dom (R2Data_init fnames kwargs) = fst ` set kwargs \<inter> set fnames
   \<and> (kd \<noteq> Section \<and> kd \<noteq> Xref \<longrightarrow>
        new uc kd kwargs = Inr (map_of (rev kwargs) |` set (field_names kd)))
   \<and> new uc Xref kwargs =
        (case map_of kwargs ''from'' of
           None \<Rightarrow> Inl KeyError
         | Some v \<Rightarrow> Inr ((map_of (rev kwargs) |` set (field_names Xref))(''fromaddr'' \<mapsto> v)))
   \<and> new uc Section kwargs =
        (case map_of (rev kwargs) ''perm'' of
           None \<Rightarrow> Inl AttributeError
         | Some p \<Rightarrow>
             (case perm2uc_any uc p of
                Inl e \<Rightarrow> Inl e
              | Inr m \<Rightarrow>
                  Inr ((map_of (rev kwargs) |` set (field_names Section))(''perm'' \<mapsto> JInt m))))"
proof -
  note b = bind_kwargs_ok[OF assms]
  have "kd \<noteq> Section \<and> kd \<noteq> Xref \<longrightarrow>
        new uc kd kwargs = Inr (map_of (rev kwargs) |` set (field_names kd))"
    by (cases kd) (simp_all add: new_def b R2Data_init_restrict)
  moreover have "new uc Xref kwargs =
        (case map_of kwargs ''from'' of
           None \<Rightarrow> Inl KeyError
         | Some v \<Rightarrow> Inr ((map_of (rev kwargs) |` set (field_names Xref))(''fromaddr'' \<mapsto> v)))"
    by (simp add: new_def b Xref_init_def R2Data_init_restrict split: option.splits)
  moreover have "new uc Section kwargs =
        (case map_of (rev kwargs) ''perm'' of
           None \<Rightarrow> Inl AttributeError
         | Some p \<Rightarrow>
             (case perm2uc_any uc p of
                Inl e \<Rightarrow> Inl e
              | Inr m \<Rightarrow>
                  Inr ((map_of (rev kwargs) |` set (field_names Section))(''perm'' \<mapsto> JInt m))))"
    by (simp add: new_def b Section_init_def R2Data_init_restrict restrict_map_def
          split: option.splits sum.splits)
  ultimately show ?thesis
    using R2Data_init_restrict dom_R2Data_init by blast
qed

text \<open>
  A \<open>Flag\<close> built from an engine record with the extra field \<open>realname\<close> and a \<open>perm\<close>:
  \<open>offset\<close> and \<open>name\<close> are set, the two other fields are dropped, \<open>size\<close> stays unset.  The
  same mapping as a \<open>Section\<close> has its \<open>perm\<close> converted.
\<close>

theorem record_construction_filters_fields_witness:
  "''self'' \<notin> fst ` set [(''offset'', JInt 16), (''realname'', JStr ''main''),
                          (''name'', JStr ''main''), (''perm'', JStr ''-r-x'')]
   \<and> Flag \<noteq> Section \<and> Flag \<noteq> Xref
   \<and> (case new unicorn_prot Flag
             [(''offset'', JInt 16), (''realname'', JStr ''main''), (''name'', JStr ''main''),
              (''perm'', JStr ''-r-x'')] of
        Inl e \<Rightarrow> False
      | Inr self \<Rightarrow> self ''offset'' = Some (JInt 16) \<and> self ''name'' = Some (JStr ''main'')
           \<and> self ''realname'' = None \<and> self ''perm'' = None \<and> self ''size'' = None)
   \<and> (case new unicorn_prot Section
             [(''offset'', JInt 16), (''realname'', JStr ''main''), (''name'', JStr ''main''),
              (''perm'', JStr ''-r-x'')] of
        Inl e \<Rightarrow> False
      | Inr self \<Rightarrow> self ''perm'' = Some (JInt 5) \<and> self ''name'' = Some (JStr ''main'')
           \<and> self ''offset'' = None)"
  using record_construction_filters_fields
    [of "[(''offset'', JInt 16), (''realname'', JStr ''main''), (''name'', JStr ''main''),
          (''perm'', JStr ''-r-x'')]"
        "field_names Flag" Flag unicorn_prot]
  by (simp add: restrict_map_def perm2uc_sum perm_value_def unicorn_prot_def)

text \<open>
  The claim as stated fails for the two classes with a constructor of their own: an
  \<open>Xref\<close> from a mapping without \<open>from\<close> raises \<open>KeyError\<close>, a \<open>Section\<close> from a mapping
  without \<open>perm\<close> raises \<open>AttributeError\<close>, and the field \<open>from\<close>, which is not a declared
  attribute name, is kept (as \<open>fromaddr\<close>) and not discarded.
\<close>

theorem record_construction_counterexample:
  "new unicorn_prot Xref [(''name'', JStr ''main''), (''addr'', JInt 16)] = Inl KeyError
   \<and> new unicorn_prot Section [(''name'', JStr ''.text'')] = Inl AttributeError
   \<and> (case new unicorn_prot Xref [(''from'', JInt 4), (''addr'', JInt 16)] of
        Inl e \<Rightarrow> False
      | Inr self \<Rightarrow> self ''fromaddr'' = Some (JInt 4))"
  by (simp add: new_def bind_kwargs_def Xref_init_def Section_init_def R2Data_init_def)

subsection \<open>The analysis gate\<close>

lemma snd_cmd: "snd (cmd eng c s) = s\<lparr>issued := issued s @ [c]\<rparr>"
  by (simp add: cmd_def)

lemma snd_cmdj: "snd (cmdj eng c s) = s\<lparr>issued := issued s @ [c]\<rparr>"
  by (simp add: cmdj_def cmd_def split: sum.splits)

lemma snd_functions_body: "snd (functions_body eng s) = s\<lparr>issued := issued s @ [''aflj'']\<rparr>"
  using snd_cmdj[of eng "''aflj''" s]
  by (auto simp: functions_body_def split: prod.splits sum.splits)

lemma snd_flags_body: "snd (flags_body eng s) = s\<lparr>issued := issued s @ [''fj'']\<rparr>"
  using snd_cmdj[of eng "''fj''" s]
  by (auto simp: flags_body_def split: prod.splits sum.splits)

lemma snd_xrefs_body: "snd (xrefs_body eng s) = s\<lparr>issued := issued s @ [''axj'']\<rparr>"
  using snd_cmdj[of eng "''axj''" s]
  by (auto simp: xrefs_body_def split: prod.splits sum.splits)

lemma aaa_analyzed: "analyzed s \<Longrightarrow> aaa f eng s = f eng s"
  by (simp add: aaa_def)

lemma aaa_sent_returns:
  "\<not> analyzed s \<Longrightarrow> aaa_returns eng (issued s) \<Longrightarrow>
   aaa f eng s = f eng (s\<lparr>issued := issued s @ [''aaa''], analyzed := True\<rparr>)"
  by (simp add: aaa_def cmd_def aaa_returns_def split: sum.splits)

lemma aaa_sent_raises:
  "\<not> analyzed s \<Longrightarrow> \<not> aaa_returns eng (issued s) \<Longrightarrow>
   snd (aaa f eng s) = s\<lparr>issued := issued s @ [''aaa'']\<rparr> \<and> (\<exists>e. fst (aaa f eng s) = Inl e)"
  by (simp add: aaa_def cmd_def aaa_returns_def split: sum.splits)

text \<open>The session in which the wrapped function runs, when it runs.\<close>

lemma aaa_state:
  assumes "\<And>s. snd (f eng s) = s\<lparr>issued := issued s @ [c]\<rparr>"
  shows "issued (snd (aaa f eng s)) =
           issued s @ (if analyzed s then [c]
                       else if aaa_returns eng (issued s) then [''aaa'', c] else [''aaa''])"
    and "analyzed (snd (aaa f eng s)) = (analyzed s \<or> aaa_returns eng (issued s))"
    and "functions_cache (snd (aaa f eng s)) = functions_cache s"
    and "flags_cache (snd (aaa f eng s)) = flags_cache s"
    and "xrefs_cache (snd (aaa f eng s)) = xrefs_cache s"
  using aaa_analyzed[of s f eng] aaa_sent_returns[of s eng f] aaa_sent_raises[of s eng f]
  by (cases "analyzed s"; cases "aaa_returns eng (issued s)"; simp add: assms)+

lemma access_cached: "cached v s \<Longrightarrow> access eng v s = s"
  by (cases v) (auto simp: functions_view_def flags_def xrefs_def)

lemma access_uncached:
  assumes "\<not> cached v s"
  shows "issued (access eng v s) =
           issued s @ (if analyzed s then [view_cmd v]
                       else if aaa_returns eng (issued s) then [''aaa'', view_cmd v] else [''aaa''])"
    and "analyzed (access eng v s) = (analyzed s \<or> aaa_returns eng (issued s))"
proof -
  have f: "issued (snd (functions_view eng s)) = issued (snd (aaa functions_body eng s))
         \<and> analyzed (snd (functions_view eng s)) = analyzed (snd (aaa functions_body eng s))"
    if "functions_cache s = None"
    using that by (simp add: functions_view_def split: prod.splits sum.splits)
  have g: "issued (snd (flags eng s)) = issued (snd (aaa flags_body eng s))
         \<and> analyzed (snd (flags eng s)) = analyzed (snd (aaa flags_body eng s))"
    if "flags_cache s = None"
    using that by (simp add: flags_def split: prod.splits sum.splits)
  have h: "issued (snd (xrefs eng s)) = issued (snd (aaa xrefs_body eng s))
         \<and> analyzed (snd (xrefs eng s)) = analyzed (snd (aaa xrefs_body eng s))"
    if "xrefs_cache s = None"
    using that by (simp add: xrefs_def split: prod.splits sum.splits)
  show "issued (access eng v s) =
           issued s @ (if analyzed s then [view_cmd v]
                       else if aaa_returns eng (issued s) then [''aaa'', view_cmd v] else [''aaa''])"
    using assms f g h
      aaa_state(1)[of functions_body eng "''aflj''" s, OF snd_functions_body]
      aaa_state(1)[of flags_body eng "''fj''" s, OF snd_flags_body]
      aaa_state(1)[of xrefs_body eng "''axj''" s, OF snd_xrefs_body]
    by (cases v) simp_all
  show "analyzed (access eng v s) = (analyzed s \<or> aaa_returns eng (issued s))"
    using assms f g h
      aaa_state(2)[of functions_body eng "''aflj''" s, OF snd_functions_body]
      aaa_state(2)[of flags_body eng "''fj''" s, OF snd_flags_body]
      aaa_state(2)[of xrefs_body eng "''axj''" s, OF snd_xrefs_body]
    by (cases v) simp_all
qed

lemma access_step:
  "issued (access eng v s) =
     issued s @ (if cached v s then []
                 else if analyzed s then [view_cmd v]
                 else if aaa_returns eng (issued s) then [''aaa'', view_cmd v]
                 else [''aaa''])
   \<and> analyzed (access eng v s) = (analyzed s \<or> (\<not> cached v s \<and> aaa_returns eng (issued s)))"
  using access_cached[of v s eng] access_uncached[of v s eng] by auto

lemma view_cmd_not_aaa: "view_cmd v \<noteq> ''aaa''"
  by (cases v) simp_all

lemma gate_inv_access:
  assumes "gate_inv h0 s" and "''aaa'' \<notin> set h0" and "aaa_returns eng h0"
  shows "gate_inv h0 (access eng v s)"
  using assms access_step[of eng v s] view_cmd_not_aaa[of v]
  by (auto simp: gate_inv_def count_list_0_iff split: if_splits)

lemma gate_inv_run:
  assumes "gate_inv h0 s" and "''aaa'' \<notin> set h0" and "aaa_returns eng h0"
  shows "gate_inv h0 (run eng vs s)"
  using assms(1) unfolding run_def
  by (induction vs arbitrary: s) (simp_all add: gate_inv_access[OF _ assms(2,3)])

text \<open>
  Claim C2, as amended.  From a session on which \<open>aaa\<close> has not run, if \<open>_cmd("aaa")\<close>
  returns when it is first sent, then whatever views are read and in whatever order,
  whether the reads return or raise, the command \<open>aaa\<close> is sent at most once.  Each read
  of a view that is not stored yet sends \<open>aaa\<close> exactly when \<open>analyzed\<close> is unset, before the
  view's own command; it sets \<open>analyzed\<close> once \<open>_cmd("aaa")\<close> has returned, and when that
  call raises the view's command is not sent and \<open>analyzed\<close> stays unset.  A read of a
  stored view sends nothing.
\<close>

theorem aaa_issued_at_most_once:
  assumes "analyzed s = False" and "''aaa'' \<notin> set (issued s)"
    and "aaa_returns eng (issued s)"
  shows "count_list (issued (run eng vs s)) ''aaa'' \<le> 1
       \<and> (\<forall>v s'. issued (access eng v s') =
              issued s' @ (if cached v s' then []
                           else if analyzed s' then [view_cmd v]
                           else if aaa_returns eng (issued s') then [''aaa'', view_cmd v]
                           else [''aaa''])
            \<and> analyzed (access eng v s') =
                (analyzed s' \<or> (\<not> cached v s' \<and> aaa_returns eng (issued s'))))"
proof -
  have "gate_inv (issued s) s" using assms(1) by (simp add: gate_inv_def)
  then have "gate_inv (issued s) (run eng vs s)"
    using assms(2,3) by (rule gate_inv_run)
  then have "count_list (issued (run eng vs s)) ''aaa'' \<le> 1"
    using assms(2) by (simp add: gate_inv_def count_list_0_iff split: if_splits)
  then show ?thesis using access_step by blast
qed

text \<open>
  On a session set up with one \<open>wx\<close> command, reading flags, xrefs, flags again and
  functions sends \<open>aaa\<close> once, before the first view's command.
\<close>

theorem aaa_issued_at_most_once_witness:
  "analyzed (new_session [''wx 90'']) = False \<and> ''aaa'' \<notin> set (issued (new_session [''wx 90'']))
   \<and> aaa_returns example_engine (issued (new_session [''wx 90'']))
   \<and> issued (run example_engine [Flags, Xrefs, Flags, Functions] (new_session [''wx 90'']))
        = [''wx 90'', ''aaa'', ''fj'', ''axj'', ''aflj'']
   \<and> count_list (issued (run example_engine [Flags, Xrefs, Flags, Functions] (new_session [''wx 90'']))) ''aaa'' \<le> 1"
  using aaa_issued_at_most_once [of "new_session [''wx 90'']" example_engine "[Flags, Xrefs, Flags, Functions]"]
  by (simp add: example_engine_def session_defs example_fj_def example_axj_def aaa_returns_def)

text \<open>
  The claim as stated fails when the reply to \<open>aaa\<close> cannot be decoded: \<open>_cmd\<close> raises
  after the command was sent, the wrapper has not set \<open>analyzed\<close> yet, and the next read
  sends \<open>aaa\<close> again.  Reading flags and then xrefs sends it twice.
\<close>

theorem aaa_issued_twice_counterexample:
  "analyzed (new_session []) = False \<and> ''aaa'' \<notin> set (issued (new_session []))
   \<and> issued (run undecodable_engine [Flags, Xrefs] (new_session [])) = [''aaa'', ''aaa'']
   \<and> count_list (issued (run undecodable_engine [Flags, Xrefs] (new_session []))) ''aaa'' = 2
   \<and> analyzed (run undecodable_engine [Flags, Xrefs] (new_session [])) = False"
  by (simp add: undecodable_engine_def session_defs)

subsection \<open>The address resolver\<close>

lemma getattr_Flag_offset:
  "getattr Flag_class f ''offset'' = (case f ''offset'' of None \<Rightarrow> Inl AttributeError | Some v \<Rightarrow> Inr v)"
  by (simp add: getattr_def Flag_class_def split: option.splits)

lemma getattr_Flag_name: "getattr Flag_class f ''name'' = Inr (flag_name f)"
  by (simp add: getattr_def Flag_class_def flag_name_def split: option.splits)

lemma query_offset: "query addr ''offset'' = Some (JInt addr)"
  by (simp add: query_def R2Data_init_def)

lemma Flag_lt_query:
  "flag_offset f = Some n \<Longrightarrow> Flag_lt (query addr) f = Inr (addr < n)"
  by (auto simp: Flag_lt_def getattr_Flag_offset query_offset flag_offset_def int_field_def py_lt_def
           split: option.splits sum.splits)

lemma py_getitem_nat: "i < length xs \<Longrightarrow> py_getitem xs (int i) = Inr (xs ! i)"
  by (simp add: py_getitem_def)

lemma at_flags_result:
  assumes "bisect_right fs (query addr) = Inr r" and "py_getitem fs (int r - 1) = Inr f"
    and "flag_offset f = Some n"
  shows "at_flags fs addr = Inr (f, addr - n)"
proof -
  obtain v where v: "f ''offset'' = Some v" "as_int v = Inr n"
    using assms(3) by (auto simp: flag_offset_def int_field_def split: option.splits sum.splits)
  then have "getattr Flag_class f ''offset'' = Inr v" "py_sub addr v = Inr (addr - n)"
    by (simp_all add: getattr_Flag_offset py_sub_def)
  then show ?thesis
    using assms(1,2) by (simp add: at_flags_def query_def)
qed

lemma bisect_loop_sorted:
  assumes "x = query addr"
    and "\<forall>i<length a. flag_offset (a ! i) = Some (os ! i)" and "length os = length a"
    and "sorted os"
    and "lo \<le> hi" and "hi \<le> length a"
    and "\<forall>i<lo. os ! i \<le> addr"
    and "\<forall>i. hi \<le> i \<and> i < length a \<longrightarrow> addr < os ! i"
  shows "\<exists>r. bisect_loop a x lo hi = Inr r \<and> lo \<le> r \<and> r \<le> hi
            \<and> (\<forall>i<r. os ! i \<le> addr) \<and> (\<forall>i. r \<le> i \<and> i < length a \<longrightarrow> addr < os ! i)"
  using assms
proof (induction a x lo hi rule: bisect_loop.induct)
  case (1 a x lo hi)
  show ?case
  proof (cases "lo < hi")
    case False
    with "1.prems" have "lo = hi" by simp
    with False "1.prems" show ?thesis by (subst bisect_loop.simps) auto
  next
    case True
    define mid where "mid = (lo + hi) div 2"
    have mid: "lo \<le> mid" "mid < hi" "mid < length a"
      using True "1.prems" by (auto simp: mid_def)
    have get: "py_getitem a (int mid) = Inr (a ! mid)"
      using mid by (simp add: py_getitem_nat)
    have off: "flag_offset (a ! mid) = Some (os ! mid)"
      using "1.prems" mid by simp
    have lt: "Flag_lt x (a ! mid) = Inr (addr < os ! mid)"
      using off "1.prems"(1) by (simp add: Flag_lt_query)
    show ?thesis
    proof (cases "addr < os ! mid")
      case less: True
      have up: "\<forall>i. mid \<le> i \<and> i < length a \<longrightarrow> addr < os ! i"
      proof (intro allI impI)
        fix i assume i: "mid \<le> i \<and> i < length a"
        then have "os ! mid \<le> os ! i"
          using \<open>sorted os\<close> \<open>length os = length a\<close> by (simp add: sorted_iff_nth_mono)
        with less show "addr < os ! i" by simp
      qed
      have "\<exists>r. bisect_loop a x lo mid = Inr r \<and> lo \<le> r \<and> r \<le> mid
            \<and> (\<forall>i<r. os ! i \<le> addr) \<and> (\<forall>i. r \<le> i \<and> i < length a \<longrightarrow> addr < os ! i)"
        using "1.IH"(1)[OF True get[unfolded mid_def] lt[unfolded mid_def] less[unfolded mid_def]]
          "1.prems" mid up unfolding mid_def by simp
      moreover have "bisect_loop a x lo hi = bisect_loop a x lo mid"
        using True get lt less by (subst bisect_loop.simps) (simp add: mid_def)
      ultimately show ?thesis using mid by fastforce
    next
      case geq: False
      have low: "\<forall>i<mid + 1. os ! i \<le> addr"
      proof (intro allI impI)
        fix i assume "i < mid + 1"
        then have "os ! i \<le> os ! mid"
          using \<open>sorted os\<close> \<open>length os = length a\<close> mid by (simp add: sorted_iff_nth_mono)
        with geq show "os ! i \<le> addr" by simp
      qed
      have "\<exists>r. bisect_loop a x (mid + 1) hi = Inr r \<and> mid + 1 \<le> r \<and> r \<le> hi
            \<and> (\<forall>i<r. os ! i \<le> addr) \<and> (\<forall>i. r \<le> i \<and> i < length a \<longrightarrow> addr < os ! i)"
        using "1.IH"(2)[OF True get[unfolded mid_def] lt[unfolded mid_def]] geq
          "1.prems" mid low unfolding mid_def by simp
      moreover have "bisect_loop a x lo hi = bisect_loop a x (mid + 1) hi"
        using True get lt geq by (subst bisect_loop.simps) (simp add: mid_def)
      ultimately show ?thesis using mid by fastforce
    qed
  qed
qed


lemma length_flag_offsets: "length (flag_offsets fs) = length fs"
  by (simp add: flag_offsets_def)

lemma sorted_flags_nth:
  assumes "sorted_flags fs" and "i < length fs"
  shows "flag_offset (fs ! i) = Some (flag_offsets fs ! i)"
  using assms by (auto simp: sorted_flags_def list_all_length flag_offsets_def)

lemma sorted_flags_mono:
  assumes "sorted_flags fs" and "i \<le> j" and "j < length fs"
  shows "flag_offsets fs ! i \<le> flag_offsets fs ! j"
  using assms by (simp add: sorted_flags_def sorted_iff_nth_mono length_flag_offsets)

lemma bisect_right_sorted:
  assumes "sorted_flags fs"
  defines "os \<equiv> flag_offsets fs"
  shows "\<exists>r. bisect_right fs (query addr) = Inr r \<and> r \<le> length fs
            \<and> (\<forall>i<r. os ! i \<le> addr) \<and> (\<forall>i. r \<le> i \<and> i < length fs \<longrightarrow> addr < os ! i)"
proof -
  have typed: "\<forall>i<length fs. flag_offset (fs ! i) = Some (os ! i)"
    using sorted_flags_nth[OF assms(1)] unfolding os_def by blast
  have "sorted os" using assms(1) by (simp add: sorted_flags_def os_def)
  moreover have "length os = length fs" by (simp add: os_def length_flag_offsets)
  ultimately have "\<exists>r. bisect_loop fs (query addr) 0 (length fs) = Inr r \<and> 0 \<le> r \<and> r \<le> length fs
            \<and> (\<forall>i<r. os ! i \<le> addr) \<and> (\<forall>i. r \<le> i \<and> i < length fs \<longrightarrow> addr < os ! i)"
    using typed by (intro bisect_loop_sorted) simp_all
  then show ?thesis
    unfolding bisect_right_def by blast
qed

lemma at_flags_preceding:
  assumes sf: "sorted_flags fs" and i: "i < length fs"
    and oi: "flag_offset (fs ! i) = Some off" and le: "off \<le> addr"
    and nxt: "i + 1 < length fs \<longrightarrow> (\<exists>n. flag_offset (fs ! (i + 1)) = Some n \<and> addr < n)"
  shows "at_flags fs addr = Inr (fs ! i, addr - off)"
proof -
  define os where "os = flag_offsets fs"
  obtain r where r: "bisect_right fs (query addr) = Inr r" "r \<le> length fs"
      "\<forall>k<r. os ! k \<le> addr" "\<forall>k. r \<le> k \<and> k < length fs \<longrightarrow> addr < os ! k"
    using bisect_right_sorted[OF sf, of addr] unfolding os_def by blast
  have osi: "os ! i = off" using oi sorted_flags_nth[OF sf i] by (simp add: os_def)
  have "i < r"
  proof (rule ccontr)
    assume "\<not> i < r"
    then have "addr < os ! i" using r(4) i by simp
    with osi le show False by simp
  qed
  moreover have "r \<le> i + 1"
  proof (rule ccontr)
    assume "\<not> r \<le> i + 1"
    then have lt: "i + 1 < r" by simp
    then have "os ! (i + 1) \<le> addr" using r(3) by simp
    moreover have "i + 1 < length fs" using lt r(2) by simp
    then have "addr < os ! (i + 1)" using nxt sorted_flags_nth[OF sf, of "i + 1"] by (auto simp: os_def)
    ultimately show False by simp
  qed
  ultimately have "r = i + 1" by simp
  then have "py_getitem fs (int r - 1) = Inr (fs ! i)"
    using i by (simp add: py_getitem_def)
  then show ?thesis
    by (rule at_flags_result[OF r(1) _ oi])
qed

lemma at_flags_below_first:
  assumes sf: "sorted_flags fs" and ne: "fs \<noteq> []"
    and o0: "flag_offset (hd fs) = Some first" and lt: "addr < first"
    and ol: "flag_offset (last fs) = Some lastoff"
  shows "at_flags fs addr = Inr (last fs, addr - lastoff)"
proof -
  define os where "os = flag_offsets fs"
  obtain r where r: "bisect_right fs (query addr) = Inr r" "r \<le> length fs"
      "\<forall>k<r. os ! k \<le> addr" "\<forall>k. r \<le> k \<and> k < length fs \<longrightarrow> addr < os ! k"
    using bisect_right_sorted[OF sf, of addr] unfolding os_def by blast
  have "os ! 0 = first" using o0 ne sorted_flags_nth[OF sf, of 0] by (simp add: os_def hd_conv_nth)
  then have "r = 0" using r(3) lt by (cases "r = 0") auto
  then have "py_getitem fs (int r - 1) = Inr (last fs)"
    using ne by (simp add: py_getitem_def last_conv_nth nat_diff_distrib')
  then show ?thesis
    by (rule at_flags_result[OF r(1) _ ol])
qed

lemma at_flags_total:
  assumes sf: "sorted_flags fs" and ne: "fs \<noteq> []"
  shows "\<exists>res. at_flags fs addr = Inr res"
proof -
  obtain r where r: "bisect_right fs (query addr) = Inr r" "r \<le> length fs"
    using bisect_right_sorted[OF sf, of addr] by blast
  define j where "j = (if r = 0 then length fs - 1 else r - 1)"
  have j: "j < length fs" using r(2) ne by (auto simp: j_def)
  have "py_getitem fs (int r - 1) = Inr (fs ! j)"
    using r(2) ne by (auto simp: py_getitem_def j_def nat_diff_distrib')
  moreover obtain n where "flag_offset (fs ! j) = Some n"
    using sorted_flags_nth[OF sf j] by blast
  ultimately show ?thesis
    using r(1) at_flags_result by blast
qed

lemma sorted_flags_last_greatest:
  assumes sf: "sorted_flags fs" and ne: "fs \<noteq> []"
  shows "\<exists>lastoff. flag_offset (last fs) = Some lastoff
           \<and> (\<forall>f\<in>set fs. \<exists>n. flag_offset f = Some n \<and> n \<le> lastoff)"
proof -
  define m where "m = length fs - 1"
  have m: "m < length fs" using ne by (simp add: m_def)
  have lastm: "last fs = fs ! m" using ne by (simp add: m_def last_conv_nth)
  have l: "flag_offset (last fs) = Some (flag_offsets fs ! m)"
    unfolding lastm by (rule sorted_flags_nth[OF sf m])
  have g: "\<exists>n. flag_offset f = Some n \<and> n \<le> flag_offsets fs ! m" if "f \<in> set fs" for f
  proof -
    from that obtain i where i: "i < length fs" "f = fs ! i"
      unfolding in_set_conv_nth by blast
    have "i \<le> m" using i(1) by (simp add: m_def)
    then have "flag_offsets fs ! i \<le> flag_offsets fs ! m"
      using m by (rule sorted_flags_mono[OF sf])
    moreover have "flag_offset f = Some (flag_offsets fs ! i)"
      unfolding i(2) by (rule sorted_flags_nth[OF sf i(1)])
    ultimately show ?thesis by (intro exI[of _ "flag_offsets fs ! i"] conjI)
  qed
  show ?thesis
    by (rule exI[of _ "flag_offsets fs ! m"], rule conjI, rule l, rule ballI, erule g)
qed

lemma flags_cached: "flags_cache s = Some fs \<Longrightarrow> flags eng s = (Inr fs, s)"
  by (simp add: flags_def)

lemma at_cached: "flags_cache s = Some fs \<Longrightarrow> at eng s addr = (at_flags fs addr, s)"
  by (simp add: at_def flags_cached split: sum.splits)

lemma resolve_at:
  "at eng s addr = (Inr (f, d), s') \<Longrightarrow> resolve eng s addr = (Inr (flag_name f, d), s')"
  by (simp add: resolve_def getattr_Flag_name)

text \<open>
  Claim C3, as amended.  On a flags list sorted ascending by offset, for a query address
  equal to the offset of a flag that is the last one at that offset (the next flag, if
  any, has another offset), \<open>resolve\<close> returns that flag's name and residual 0.
\<close>

theorem resolve_at_flag_offset:
  assumes "flags_cache s = Some fs" and "sorted_flags fs" and "i < length fs"
    and "flag_offset (fs ! i) = Some addr"
    and "i + 1 < length fs \<longrightarrow> flag_offset (fs ! (i + 1)) \<noteq> Some addr"
  shows "resolve eng s addr = (Inr (flag_name (fs ! i), 0), s)"
proof -
  have "\<exists>n. flag_offset (fs ! (i + 1)) = Some n \<and> addr < n" if lt: "i + 1 < length fs"
  proof -
    define os where "os = flag_offsets fs"
    have a: "flag_offset (fs ! (i + 1)) = Some (os ! (i + 1))"
      using sorted_flags_nth[OF assms(2) lt] by (simp add: os_def)
    have "os ! i \<le> os ! (i + 1)"
      using sorted_flags_mono[OF assms(2), of i "i + 1"] lt by (simp add: os_def)
    moreover have "os ! i = addr"
      using assms(4) sorted_flags_nth[OF assms(2,3)] by (simp add: os_def)
    moreover have "os ! (i + 1) \<noteq> addr" using a assms(5) lt by simp
    ultimately show ?thesis using a by simp
  qed
  then have "at_flags fs addr = Inr (fs ! i, addr - addr)"
    using at_flags_preceding[OF assms(2,3,4), of addr] by blast
  then have "at eng s addr = (Inr (fs ! i, addr - addr), s)"
    using assms(1) by (simp add: at_cached)
  then show ?thesis
    using resolve_at by fastforce
qed

text \<open>On the example session, \<open>resolve 0x10\<close> gives \<open>start\<close> and 0.\<close>

theorem resolve_at_flag_offset_witness:
  "flags_cache example_session = Some example_flags \<and> sorted_flags example_flags
   \<and> 0 < length example_flags \<and> flag_offset (example_flags ! 0) = Some 16
   \<and> flag_offset (example_flags ! (0 + 1)) \<noteq> Some 16
   \<and> resolve example_engine example_session 16 = (Inr (JStr ''start'', 0), example_session)"
  using resolve_at_flag_offset [of example_session example_flags 0 16 example_engine]
  by (simp add: example_session_caches example_flags_facts)

text \<open>
  The claim as stated fails when two flags share an offset: the list \<open>main\<close>,
  \<open>sym.main\<close>, both at \<open>0x10\<close>, is sorted ascending, the address \<open>0x10\<close> is the offset of
  \<open>main\<close>, and \<open>resolve\<close> returns the name \<open>sym.main\<close>: \<open>bisect_right\<close> lands to the right
  of the last flag at the address.
\<close>

theorem resolve_tied_offset_counterexample:
  "(case flags tied_engine (new_session []) of
      (Inl e, s) \<Rightarrow> False
    | (Inr fs, s) \<Rightarrow>
        flags_cache s = Some fs \<and> sorted_flags fs \<and> fs \<noteq> [] 
        \<and> flag_offset (fs ! 0) = Some 16 \<and> flag_name (fs ! 0) = JStr ''main''
        \<and> resolve tied_engine s 16 = (Inr (JStr ''sym.main'', 0), s))"
  by (simp add: tied_engine_def tied_fj_def session_defs resolve_def at_def at_flags_def
        bisect_right_def bisect_loop.simps py_getitem_def Flag_lt_def getattr_def Flag_class_def
        py_lt_def py_sub_def R2Data_init_def sorted_flags_def flag_offsets_def flag_offset_def
        int_field_def flag_name_def)

text \<open>
  Claim C4.  On a flags list sorted ascending by offset, for a query address strictly
  between the offsets of two adjacent flags, \<open>resolve\<close> returns the lower flag's name and
  the address minus the lower flag's offset.
\<close>

theorem resolve_between_adjacent_flags:
  assumes "flags_cache s = Some fs" and "sorted_flags fs" and "i + 1 < length fs"
    and "flag_offset (fs ! i) = Some lower" and "flag_offset (fs ! (i + 1)) = Some upper"
    and "lower < addr" and "addr < upper"
  shows "resolve eng s addr = (Inr (flag_name (fs ! i), addr - lower), s)"
proof -
  have "i < length fs" using assms(3) by simp
  then have "at_flags fs addr = Inr (fs ! i, addr - lower)"
    using at_flags_preceding[OF assms(2) _ assms(4), of addr] assms(5,6,7) by simp
  then have "at eng s addr = (Inr (fs ! i, addr - lower), s)"
    using assms(1) by (simp add: at_cached)
  then show ?thesis
    by (rule resolve_at)
qed

text \<open>On the example session, \<open>resolve 0x15\<close> gives \<open>start\<close> and 5.\<close>

theorem resolve_between_adjacent_flags_witness:
  "flags_cache example_session = Some example_flags \<and> sorted_flags example_flags
   \<and> 0 + 1 < length example_flags \<and> flag_offset (example_flags ! 0) = Some 16
   \<and> flag_offset (example_flags ! (0 + 1)) = Some 32 \<and> (16::int) < 21 \<and> (21::int) < 32
   \<and> resolve example_engine example_session 21 = (Inr (JStr ''start'', 5), example_session)"
  using resolve_between_adjacent_flags [of example_session example_flags 0 16 32 21 example_engine]
  by (simp add: example_session_caches example_flags_facts)

text \<open>
  Claim C9.  On a non-empty flags list sorted ascending by offset, for a query address
  below the first flag's offset, \<open>at\<close> raises nothing and returns the last flag of the
  list, whose offset is the greatest, with the negative residual; and \<open>at\<close> returns a
  result for every address.
\<close>

theorem at_below_first_flag_wraps_to_last:
  assumes "flags_cache s = Some fs" and "sorted_flags fs" and "fs \<noteq> []"
    and "flag_offset (hd fs) = Some first" and "addr < first"
  shows "\<exists>lastoff. flag_offset (last fs) = Some lastoff
           \<and> (\<forall>f\<in>set fs. \<exists>n. flag_offset f = Some n \<and> n \<le> lastoff)
           \<and> at eng s addr = (Inr (last fs, addr - lastoff), s)
           \<and> addr - lastoff < 0
           \<and> (\<forall>a. \<exists>res. at eng s a = (Inr res, s))"
proof -
  obtain lastoff where l: "flag_offset (last fs) = Some lastoff"
      "\<forall>f\<in>set fs. \<exists>n. flag_offset f = Some n \<and> n \<le> lastoff"
    using sorted_flags_last_greatest[OF assms(2,3)] by blast
  have "hd fs \<in> set fs" using assms(3) by simp
  then have "first \<le> lastoff" using l(2) assms(4) by fastforce
  then have neg: "addr - lastoff < 0" using assms(5) by simp
  have "at eng s addr = (Inr (last fs, addr - lastoff), s)"
    using at_flags_below_first[OF assms(2,3,4,5) l(1)] assms(1)
    by (simp add: at_cached)
  moreover have "\<forall>a. \<exists>res. at eng s a = (Inr res, s)"
    using at_flags_total[OF assms(2,3)] assms(1) by (simp add: at_cached)
  ultimately show ?thesis using l neg by blast
qed

text \<open>On the example session, \<open>at 5\<close> gives the last flag, \<open>mid\<close>, and \<open>-27\<close>.\<close>

theorem at_below_first_flag_wraps_to_last_witness:
  "flags_cache example_session = Some example_flags \<and> sorted_flags example_flags
   \<and> example_flags \<noteq> [] \<and> flag_offset (hd example_flags) = Some 16 \<and> (5::int) < 16
   \<and> at example_engine example_session 5 = (Inr (last example_flags, - 27), example_session)
   \<and> flag_name (last example_flags) = JStr ''mid''"
  using at_below_first_flag_wraps_to_last [of example_session example_flags 16 5 example_engine]
  by (auto simp add: example_session_caches example_flags_facts)

text \<open>
  Claim C1 asks \<open>resolve\<close> to report an error for an address below every flag.  The code
  has no such check: the insertion point is 0, the index \<open>idx - 1 = -1\<close> reads the last
  element, and on the example \<open>resolve 5\<close> returns \<open>mid\<close>, a flag above the address, with
  the residual \<open>-27\<close>, on a stored view as well as on a fresh session.
\<close>

theorem resolve_below_first_flag_returns_last:
  "fst (resolve example_engine example_session 5) = Inr (JStr ''mid'', - 27)
   \<and> fst (resolve example_engine (new_session []) 5) = Inr (JStr ''mid'', - 27)"
  by code_simp

subsection \<open>The flags view\<close>

lemma flags_comp_objs:
  "\<forall>d\<in>set ds. ''self'' \<notin> fst ` set d \<Longrightarrow>
   flags_comp (map JObj ds) = Inr (map (R2Data_init (field_names Flag)) ds)"
  by (induction ds) (simp_all add: bind_kwargs_def)

lemma flag_offset_init: "flag_offset (R2Data_init (field_names Flag) d) = reply_offset d"
  by (simp add: flag_offset_def int_field_def reply_offset_def R2Data_init_restrict restrict_map_def)

text \<open>
  Claim C5, as amended.  When the view is not stored yet, \<open>_cmd\<close> returns for the commands
  the read sends, and the reply to \<open>fj\<close> decodes to a list of objects none of which has
  the key \<open>self\<close>, the flags view holds one \<open>Flag\<close> per object, in the order of the reply,
  with the offsets of the reply; it is sorted ascending by offset exactly when the reply
  is.
\<close>

theorem flags_view_keeps_reply_order:
  assumes "flags_cache s = None"
    and "analyzed s \<or> aaa_returns eng (issued s)"
    and "r_core_cmd_str eng (issued s @ (if analyzed s then [] else [''aaa''])) ''fj'' = Inr reply"
    and "json_loads eng reply = Inr (JList (map JObj ds))"
    and "\<forall>d\<in>set ds. ''self'' \<notin> fst ` set d"
  shows "fst (flags eng s) = Inr (map (R2Data_init (field_names Flag)) ds)
       \<and> flags_cache (snd (flags eng s)) = Some (map (R2Data_init (field_names Flag)) ds)
       \<and> map flag_offset (map (R2Data_init (field_names Flag)) ds) = map reply_offset ds
       \<and> (sorted_flags (map (R2Data_init (field_names Flag)) ds) \<longleftrightarrow> sorted_reply ds)"
proof -
  define s1 where
    "s1 = (if analyzed s then s else s\<lparr>issued := issued s @ [''aaa''], analyzed := True\<rparr>)"
  have run: "aaa flags_body eng s = flags_body eng s1"
    using assms(2) aaa_analyzed[of s flags_body eng] aaa_sent_returns[of s eng flags_body]
    by (auto simp: s1_def)
  have log: "issued s1 = issued s @ (if analyzed s then [] else [''aaa''])"
    by (simp add: s1_def)
  have "fst (flags_body eng s1) = Inr (map (R2Data_init (field_names Flag)) ds)"
    using assms(3,4) flags_comp_objs[OF assms(5)]
    by (simp add: flags_body_def cmdj_def cmd_def log)
  then obtain s2 where
    body: "flags_body eng s1 = (Inr (map (R2Data_init (field_names Flag)) ds), s2)"
    by (cases "flags_body eng s1") simp
  have a: "fst (flags eng s) = Inr (map (R2Data_init (field_names Flag)) ds)"
    and b: "flags_cache (snd (flags eng s)) = Some (map (R2Data_init (field_names Flag)) ds)"
    using assms(1) by (simp_all add: flags_def run body)
  have c: "map flag_offset (map (R2Data_init (field_names Flag)) ds) = map reply_offset ds"
    by (simp only: map_map comp_def flag_offset_init)
  have d: "sorted_flags (map (R2Data_init (field_names Flag)) ds) \<longleftrightarrow> sorted_reply ds"
    by (simp add: sorted_flags_def sorted_reply_def flag_offsets_def list_all_iff
          flag_offset_init[unfolded field_names.simps] comp_def)
  from a b c d show ?thesis by blast
qed

text \<open>The example engine lists \<open>start\<close> before \<open>mid\<close>, and so does the view.\<close>

theorem flags_view_keeps_reply_order_witness:
  "flags_cache (new_session []) = None
   \<and> (analyzed (new_session []) \<or> aaa_returns example_engine (issued (new_session [])))
   \<and> (case r_core_cmd_str example_engine
              (issued (new_session []) @ (if analyzed (new_session []) then [] else [''aaa'']))
              ''fj'' of
        Inl e \<Rightarrow> False
      | Inr reply \<Rightarrow> json_loads example_engine reply = Inr (JList (map JObj example_fj)))
   \<and> list_all (\<lambda>d. ''self'' \<notin> fst ` set d) example_fj
   \<and> fst (flags example_engine (new_session [])) = Inr example_flags
   \<and> map flag_offset example_flags = [Some 16, Some 32]
   \<and> sorted_flags example_flags \<and> sorted_reply example_fj"
proof -
  obtain reply where r: "r_core_cmd_str example_engine
        (issued (new_session []) @ (if analyzed (new_session []) then [] else [''aaa''])) ''fj''
      = Inr reply"
    by (simp add: example_engine_def stub_engine_def)
  have h1: "flags_cache (new_session []) = None"
    by (simp add: new_session_def)
  have h2: "analyzed (new_session []) \<or> aaa_returns example_engine (issued (new_session []))"
    by (simp add: aaa_returns_def example_engine_def stub_engine_def)
  have h4: "json_loads example_engine reply = Inr (JList (map JObj example_fj))"
    using r by (auto simp: example_engine_def stub_engine_def)
  have h5: "\<forall>d\<in>set example_fj. ''self'' \<notin> fst ` set d"
    by (simp add: example_fj_def)
  have h6: "map reply_offset example_fj = [Some 16, Some 32]"
    by (simp add: reply_offset_def example_fj_def)
  have l: "list_all (\<lambda>d. ''self'' \<notin> fst ` set d) example_fj"
    using h5 by (simp only: list_all_iff)
  show ?thesis
    using h1 h2 r h4 l h6 flags_view_keeps_reply_order [OF h1 h2 r h4 h5]
    by (simp add: example_flags_def[unfolded field_names.simps, symmetric] example_flags_facts)
qed

text \<open>
  The claim as stated fails: the view is not sorted when the reply is not.  For the
  reply that lists \<open>mid\<close> at \<open>0x20\<close> before \<open>start\<close> at \<open>0x10\<close>, the stored view has the
  offsets \<open>0x20, 0x10\<close>, and \<open>resolve 0x28\<close> then answers \<open>start\<close> with the residual 24
  where \<open>mid\<close> is the nearest flag below.
\<close>

theorem flags_view_unsorted_counterexample:
  "(case flags unsorted_engine (new_session []) of
      (Inl e, s) \<Rightarrow> False
    | (Inr fs, s) \<Rightarrow>
        flags_cache s = Some fs \<and> map flag_offset fs = [Some 32, Some 16] \<and> \<not> sorted_flags fs
        \<and> resolve unsorted_engine s 40 = (Inr (JStr ''start'', 24), s))"
  by (simp add: unsorted_engine_def example_fj_def session_defs resolve_def at_def at_flags_def
        bisect_right_def bisect_loop.simps py_getitem_def Flag_lt_def getattr_def Flag_class_def
        py_lt_def py_sub_def R2Data_init_def sorted_flags_def flag_offsets_def flag_offset_def
        int_field_def flag_name_def)

subsection \<open>Cross-references to an address\<close>

lemma refto_values_filter:
  assumes "\<forall>x\<in>set xs. x ''addr'' \<noteq> None"
  shows "refto_values xs addr = Inr (filter (\<lambda>x. xref_addr x = Some addr) xs)"
  using assms
proof (induction xs)
  case Nil
  then show ?case by simp
next
  case (Cons x xs)
  then obtain v where v: "x ''addr'' = Some v" by auto
  have "py_eq_int v addr \<longleftrightarrow> xref_addr x = Some addr"
    by (simp add: py_eq_int_def xref_addr_def int_field_def v split: sum.splits)
  then show ?case
    using Cons v by (simp add: getattr_def)
qed

text \<open>
  Claim C8.  On a stored xrefs view whose records all have the attribute \<open>addr\<close>,
  \<open>refto addr\<close> returns, in the order of the view, exactly the records whose destination
  is \<open>addr\<close>, and leaves the session as it is.
\<close>

theorem refto_exactly_references_to:
  assumes "xrefs_cache s = Some d" and "\<forall>x\<in>set (dict_values d). x ''addr'' \<noteq> None"
  shows "refto eng s addr = (Inr (filter (\<lambda>x. xref_addr x = Some addr) (dict_values d)), s)
       \<and> (\<forall>x. x \<in> set (filter (\<lambda>x. xref_addr x = Some addr) (dict_values d))
              \<longleftrightarrow> x \<in> set (dict_values d) \<and> xref_addr x = Some addr)"
  using assms refto_values_filter[of "dict_values d" addr]
  by (simp add: refto_def xrefs_def)

text \<open>
  On the example session, the references to \<open>0x20\<close> are the two from \<open>20\<close> and \<open>36\<close>.
\<close>

theorem refto_exactly_references_to_witness:
  "xrefs_cache example_session = Some example_xrefs
   \<and> list_all (\<lambda>x. x ''addr'' \<noteq> None) (dict_values example_xrefs)
   \<and> (case refto example_engine example_session 32 of
        (Inl e, s) \<Rightarrow> False
      | (Inr rs, s) \<Rightarrow> map (\<lambda>x. x ''fromaddr'') rs = [Some (JInt 20), Some (JInt 36)]
                        \<and> s = example_session)"
proof -
  have h1: "xrefs_cache example_session = Some example_xrefs"
    by (rule example_session_caches(2))
  have h2: "\<forall>x\<in>set (dict_values example_xrefs). x ''addr'' \<noteq> None"
    by (rule example_xrefs_facts(1))
  have r: "refto example_engine example_session 32
      = (Inr (filter (\<lambda>x. xref_addr x = Some 32) (dict_values example_xrefs)), example_session)"
    using refto_exactly_references_to [OF h1 h2, of example_engine 32] by (rule conjunct1)
  have l: "list_all (\<lambda>x. x ''addr'' \<noteq> None) (dict_values example_xrefs)"
    using h2 by (simp only: list_all_iff)
  show ?thesis
    using h1 l by (simp add: r example_xrefs_facts(2))
qed

end
